theory Spec2Isabelle
  imports Complex_Main
begin

section \<open>JavaScript values used by the hooks\<close>

text \<open>
  JavaScript numbers are modelled as exact rationals: line counts are integers far below
  \<open>2^53\<close>, and percentages are quotients of such counts. \<open>Math.round\<close> rounds to the
  nearest integer, a tie going up; \<open>Math.round(x * 10) / 10\<close> keeps one decimal.
  Texts are strings of 8-bit characters; nothing below depends on the alphabet.
\<close>

definition Math_round :: "rat \<Rightarrow> int" where
  "Math_round x = \<lfloor>x + 1 / 2\<rfloor>"

definition round1 :: "rat \<Rightarrow> rat" where
  "round1 x = of_int (Math_round (x * 10)) / 10"

text \<open>\<open>s.split('\n')\<close>: the pieces between line feeds; never the empty array.\<close>

fun split_nl :: "string \<Rightarrow> string list" where
  "split_nl [] = [[]]"
| "split_nl (c # cs) =
     (if c = CHR 0x0A then [] # split_nl cs
      else (c # hd (split_nl cs)) # tl (split_nl cs))"

section \<open>Diff engine\<close>

subsection \<open>\<open>calculateDetailedDiff\<close> (detect-modifications.js)\<close>

record region =
  r_start :: nat
  r_end :: nat
  r_type :: string

record detailed_diff =
  dd_added :: int
  dd_removed :: int
  dd_modified :: int
  dd_changePercentage :: rat
  dd_regions :: "region list"

text \<open>
  The state of the \<open>for\<close> loop: \<open>modifiedLines\<close>, \<open>modifiedRegions\<close> and
  \<open>currentRegion\<close> (\<open>None\<close> is \<open>null\<close>). \<open>diff_step\<close> is one pass of the loop body at
  index \<open>i\<close>.
\<close>

type_synonym loop_state = "int \<times> region list \<times> region option"

definition diff_step :: "string list \<Rightarrow> string list \<Rightarrow> nat \<Rightarrow> loop_state \<Rightarrow> loop_state" where
  "diff_step beforeLines afterLines i st =
     (case st of (modifiedLines, modifiedRegions, currentRegion) \<Rightarrow>
        if beforeLines ! i \<noteq> afterLines ! i then
          (modifiedLines + 1, modifiedRegions,
           (case currentRegion of
              None \<Rightarrow> Some \<lparr>r_start = i, r_end = i, r_type = ''modified''\<rparr>
            | Some r \<Rightarrow> Some (r\<lparr>r_end := i\<rparr>)))
        else
          (case currentRegion of
             Some r \<Rightarrow> (modifiedLines, modifiedRegions @ [r], None)
           | None \<Rightarrow> (modifiedLines, modifiedRegions, None)))"

definition diff_loop :: "string list \<Rightarrow> string list \<Rightarrow> nat \<Rightarrow> loop_state" where
  "diff_loop beforeLines afterLines minLength =
     fold (diff_step beforeLines afterLines) [0..<minLength] (0, [], None)"

text \<open>The body of \<open>calculateDetailedDiff\<close> after the two \<open>split\<close> calls.\<close>

definition detailedDiffLines :: "string list \<Rightarrow> string list \<Rightarrow> detailed_diff" where
  "detailedDiffLines beforeLines afterLines =
     (let added = int (length afterLines) - int (length beforeLines);
          removed = (if added < 0 then \<bar>added\<bar> else 0);
          minLength = min (length beforeLines) (length afterLines);
          (modifiedLines, regions0, currentRegion) = diff_loop beforeLines afterLines minLength;
          regions1 = (case currentRegion of Some r \<Rightarrow> regions0 @ [r] | None \<Rightarrow> regions0);
          modifiedRegions =
            (if added > 0 then
               regions1 @ [\<lparr>r_start = length beforeLines, r_end = length afterLines - 1,
                            r_type = ''added''\<rparr>]
             else if removed > 0 then
               regions1 @ [\<lparr>r_start = minLength, r_end = length beforeLines - 1,
                            r_type = ''removed''\<rparr>]
             else regions1);
          totalLines = max (length beforeLines) (length afterLines);
          changePercentage =
            (if totalLines > 0 then
               (of_int (modifiedLines + \<bar>added\<bar>) / of_nat totalLines) * 100
             else 0)
      in \<lparr>dd_added = max 0 added, dd_removed = removed, dd_modified = modifiedLines,
          dd_changePercentage = round1 changePercentage, dd_regions = modifiedRegions\<rparr>)"

definition calculateDetailedDiff :: "string \<Rightarrow> string \<Rightarrow> detailed_diff" where
  "calculateDetailedDiff beforeText afterText =
     detailedDiffLines (split_nl beforeText) (split_nl afterText)"

subsection \<open>\<open>calculateDiff\<close> (collect-feedback.js)\<close>

record simple_diff =
  sd_added :: int
  sd_removed :: int
  sd_modified :: int
  sd_changePercentage :: rat

definition count_changed :: "string list \<Rightarrow> string list \<Rightarrow> nat \<Rightarrow> int" where
  "count_changed originalLines modifiedLines modified_count =
     fold (\<lambda>i changedLines.
             if originalLines ! i \<noteq> modifiedLines ! i then changedLines + 1 else changedLines)
          [0..<modified_count] 0"

definition diffLines :: "string list \<Rightarrow> string list \<Rightarrow> simple_diff" where
  "diffLines originalLines modifiedLines =
     (let added = int (length modifiedLines) - int (length originalLines);
          removed = (if added < 0 then \<bar>added\<bar> else 0);
          modified_count = min (length originalLines) (length modifiedLines);
          changedLines = count_changed originalLines modifiedLines modified_count;
          totalLines = max (length originalLines) (length modifiedLines);
          changePercentage =
            (if totalLines > 0 then (of_int changedLines / of_nat totalLines) * 100 else 0)
      in \<lparr>sd_added = max 0 added, sd_removed = removed, sd_modified = changedLines,
          sd_changePercentage = round1 changePercentage\<rparr>)"

definition calculateDiff :: "string \<Rightarrow> string \<Rightarrow> simple_diff" where
  "calculateDiff original modified = diffLines (split_nl original) (split_nl modified)"

subsection \<open>Notions the statements about the diff engine use\<close>

text \<open>
  The specification's words: index \<open>i\<close> is modified when it lies below the shorter length
  and the two lines there differ; a maximal contiguous run of modified indices is an
  interval \<open>s..e\<close> of modified indices that cannot be extended on either side.
\<close>

definition differs :: "string list \<Rightarrow> string list \<Rightarrow> nat \<Rightarrow> bool" where
  "differs b a i \<longleftrightarrow> i < min (length b) (length a) \<and> b ! i \<noteq> a ! i"

definition maximal_run :: "string list \<Rightarrow> string list \<Rightarrow> nat \<Rightarrow> nat \<Rightarrow> bool" where
  "maximal_run b a s e \<longleftrightarrow>
     s \<le> e \<and> (\<forall>i\<in>{s..e}. differs b a i) \<and> (s = 0 \<or> \<not> differs b a (s - 1)) \<and>
     \<not> differs b a (e + 1)"

text \<open>
  The invariant of the \<open>for\<close> loop after \<open>k\<close> passes: the counter is the number of modified
  indices below \<open>k\<close>; the regions pushed are the maximal runs that ended before index
  \<open>k - 1\<close>, in order; and the current region, if any, is the run that reaches \<open>k - 1\<close>.
\<close>

definition loop_inv :: "string list \<Rightarrow> string list \<Rightarrow> nat \<Rightarrow> loop_state \<Rightarrow> bool" where
  "loop_inv b a k st \<longleftrightarrow>
     (case st of (m, regs, cur) \<Rightarrow>
        m = int (card {i. i < k \<and> differs b a i}) \<and>
        (\<forall>r\<in>set regs. r_type r = ''modified'' \<and> maximal_run b a (r_start r) (r_end r) \<and> r_end r + 1 < k) \<and>
        (\<forall>s e. maximal_run b a s e \<and> e + 1 < k \<longrightarrow>
               \<lparr>r_start = s, r_end = e, r_type = ''modified''\<rparr> \<in> set regs) \<and>
        sorted_wrt (\<lambda>x y. r_end x < r_start y) regs \<and>
        (case cur of
           None \<Rightarrow> k = 0 \<or> \<not> differs b a (k - 1)
         | Some r \<Rightarrow> 0 < k \<and> r_end r = k - 1 \<and> r_start r \<le> r_end r \<and>
                     (\<forall>i\<in>{r_start r..r_end r}. differs b a i) \<and>
                     (r_start r = 0 \<or> \<not> differs b a (r_start r - 1)) \<and>
                     r_type r = ''modified''))"

text \<open>
  The specification's trailing region: tagged "added" or "removed", from the shorter length
  to the last index of the longer sequence; its size is the number of indices it covers.
\<close>

definition trailing_region :: "string list \<Rightarrow> string list \<Rightarrow> region list" where
  "trailing_region b a =
     (if length b < length a then
        [\<lparr>r_start = length b, r_end = length a - 1, r_type = ''added''\<rparr>]
      else if length a < length b then
        [\<lparr>r_start = length a, r_end = length b - 1, r_type = ''removed''\<rparr>]
      else [])"

definition region_size :: "region \<Rightarrow> nat" where
  "region_size r = r_end r + 1 - r_start r"

definition modified_regions :: "region list \<Rightarrow> region list" where
  "modified_regions rs = filter (\<lambda>r. r_type r = ''modified'') rs"

text \<open>The regions the loop has produced once the last current region is pushed.\<close>

definition loop_regions :: "string list \<Rightarrow> string list \<Rightarrow> region list" where
  "loop_regions b a =
     (case diff_loop b a (min (length b) (length a)) of
        (m, regs, cur) \<Rightarrow> (case cur of Some r \<Rightarrow> regs @ [r] | None \<Rightarrow> regs))"


section \<open>Satisfaction scorer (collect-feedback.js)\<close>

text \<open>
  The record that \<open>analyzeFileModification\<close> returns for one file, with its nested
  \<open>modifications\<close> object.
\<close>

record modification_stats =
  lines_added :: int
  lines_removed :: int
  lines_modified :: int
  percentage_changed :: rat

record file_modification =
  fm_file_path :: string
  claude_version_length :: nat
  user_version_length :: nat
  modifications :: modification_stats
  modification_categories :: "string list"
  skill_that_generated :: string

definition categorizeModifications :: "simple_diff \<Rightarrow> string list" where
  "categorizeModifications diff =
     (let categories0 = [];
          categories1 =
            (if sd_changePercentage diff < 5 then categories0 @ [''minor_tweaks'']
             else if sd_changePercentage diff < 20 then categories0 @ [''moderate_changes'']
             else if sd_changePercentage diff < 50 then categories0 @ [''significant_rewrite'']
             else categories0 @ [''complete_overhaul'']);
          categories2 =
            (if sd_added diff > sd_removed diff then categories1 @ [''expansion'']
             else if sd_removed diff > sd_added diff then categories1 @ [''reduction'']
             else categories1)
      in categories2)"

text \<open>
  The object literal at the end of \<open>analyzeFileModification\<close>, from the path, the two
  versions and \<open>file.generatedBySkill\<close> (\<open>None\<close> is \<open>undefined\<close>; an empty name is
  falsy as well).
\<close>

definition fileModificationRecord ::
    "string \<Rightarrow> string \<Rightarrow> string \<Rightarrow> string option \<Rightarrow> file_modification" where
  "fileModificationRecord path claudeVersion userVersion generatedBySkill =
     (let diff = calculateDiff claudeVersion userVersion
      in \<lparr>fm_file_path = path,
          claude_version_length = length claudeVersion,
          user_version_length = length userVersion,
          modifications =
            \<lparr>lines_added = sd_added diff, lines_removed = sd_removed diff,
             lines_modified = sd_modified diff,
             percentage_changed = sd_changePercentage diff\<rparr>,
          modification_categories = categorizeModifications diff,
          skill_that_generated =
            (case generatedBySkill of
               None \<Rightarrow> ''unknown''
             | Some s \<Rightarrow> if s = [] then ''unknown'' else s)\<rparr>)"

text \<open>
  \<open>calculateSatisfactionScore\<close>: \<open>reduce\<close> is a left fold from 0; the result of
  \<open>Math.round\<close> is an integer.
\<close>

definition calculateSatisfactionScore :: "file_modification list \<Rightarrow> int" where
  "calculateSatisfactionScore mods =
     (if length mods = 0 then 100
      else
        (let avgChange =
               foldl (\<lambda>sum m. sum + percentage_changed (modifications m)) 0 mods
                 / of_nat (length mods)
         in max 0 (min 100 (Math_round (100 - avgChange)))))"

text \<open>The mean of the change percentages, as the specification words it.\<close>

definition mean_change :: "file_modification list \<Rightarrow> rat" where
  "mean_change mods =
     sum_list (map (\<lambda>m. percentage_changed (modifications m)) mods) / of_nat (length mods)"


text \<open>A modification record that carries a given change percentage and nothing else.\<close>

definition with_percentage :: "rat \<Rightarrow> file_modification" where
  "with_percentage p =
     \<lparr>fm_file_path = [], claude_version_length = 0, user_version_length = 0,
      modifications = \<lparr>lines_added = 0, lines_removed = 0, lines_modified = 0,
                       percentage_changed = p\<rparr>,
      modification_categories = [], skill_that_generated = ''unknown''\<rparr>"

section \<open>Edit records and the modification classifier (detect-modifications.js)\<close>

text \<open>
  An optional string is a property that may be \<open>undefined\<close>. \<open>x || d\<close> takes \<open>d\<close>
  when \<open>x\<close> is \<open>undefined\<close> or the empty string, and \<open>!x\<close> holds in the same two cases.
\<close>

definition truthy :: "string option \<Rightarrow> bool" where
  "truthy x = (case x of None \<Rightarrow> False | Some s \<Rightarrow> s \<noteq> [])"

definition or_default :: "string option \<Rightarrow> string \<Rightarrow> string" where
  "or_default x d = (case x of None \<Rightarrow> d | Some s \<Rightarrow> if s = [] then d else s)"

text \<open>
  The \<open>diff\<close> object of a modification record. Its number-valued properties are kept by
  name, in the order of the object literal, so that reading a property the object does not
  have gives \<open>undefined\<close> as in JavaScript; \<open>affected_regions\<close> is the array of regions.
\<close>

record diff_obj =
  num_props :: "(string \<times> rat) list"
  affected_regions :: "region list"

text \<open>
  A number read from an object: \<open>None\<close> is \<open>undefined\<close>, which arithmetic turns into
  \<open>NaN\<close> (\<open>None\<close> again) and with which every comparison is false.
\<close>

definition js_prop :: "diff_obj \<Rightarrow> string \<Rightarrow> rat option" where
  "js_prop obj name = map_of (num_props obj) name"

definition js_lt :: "rat option \<Rightarrow> rat option \<Rightarrow> bool" where
  "js_lt x y = (case (x, y) of (Some a, Some b) \<Rightarrow> a < b | _ \<Rightarrow> False)"

definition js_gt :: "rat option \<Rightarrow> rat option \<Rightarrow> bool" where
  "js_gt x y = (case (x, y) of (Some a, Some b) \<Rightarrow> a > b | _ \<Rightarrow> False)"

definition js_mul :: "rat option \<Rightarrow> rat option \<Rightarrow> rat option" where
  "js_mul x y = (case (x, y) of (Some a, Some b) \<Rightarrow> Some (a * b) | _ \<Rightarrow> None)"

definition js_add :: "rat option \<Rightarrow> rat option \<Rightarrow> rat option" where
  "js_add x y = (case (x, y) of (Some a, Some b) \<Rightarrow> Some (a + b) | _ \<Rightarrow> None)"

record content_snapshot_obj =
  before_length :: nat
  after_length :: nat
  before_lines :: nat
  after_lines :: nat

record modification =
  mod_id :: string
  mod_timestamp :: string
  mod_file_path :: string
  skill_name :: string
  session_id :: string
  edit_type :: string
  user_action :: string
  diff :: diff_obj
  content_snapshot :: content_snapshot_obj

record edit_context =
  ctx_filePath :: string
  ctx_generatedBySkill :: "string option"
  ctx_sessionId :: "string option"
  ctx_editType :: "string option"
  ctx_userAction :: "string option"
  ctx_previousContent :: "string option"
  ctx_newContent :: "string option"

text \<open>
  The object literal \<open>modification\<close> of \<open>recordModification\<close>, from the identifier, the
  time stamp, the context and the two contents compared.
\<close>

definition buildModification ::
    "string \<Rightarrow> string \<Rightarrow> edit_context \<Rightarrow> string \<Rightarrow> string \<Rightarrow> modification" where
  "buildModification ident timestamp context previousContent currentContent =
     (let d = calculateDetailedDiff previousContent currentContent
      in \<lparr>mod_id = ident,
          mod_timestamp = timestamp,
          mod_file_path = ctx_filePath context,
          skill_name = or_default (ctx_generatedBySkill context) ''unknown'',
          session_id = or_default (ctx_sessionId context) ''unknown'',
          edit_type = or_default (ctx_editType context) ''unknown'',
          user_action = or_default (ctx_userAction context) ''edit'',
          diff =
            \<lparr>num_props =
               [(''lines_added'', of_int (dd_added d)),
                (''lines_removed'', of_int (dd_removed d)),
                (''lines_modified'', of_int (dd_modified d)),
                (''change_percentage'', dd_changePercentage d)],
             affected_regions = dd_regions d\<rparr>,
          content_snapshot =
            \<lparr>before_length = length previousContent,
             after_length = length currentContent,
             before_lines = length (split_nl previousContent),
             after_lines = length (split_nl currentContent)\<rparr>\<rparr>)"

record analysis =
  modification_id :: string
  categories :: "string list"
  severity :: string
  likely_reason :: "string list"

text \<open>
  \<open>analyzeModificationType\<close>. The four steps of the source, each pushing onto the arrays of
  the analysis built so far. Step 2 reads the properties \<open>added\<close>, \<open>removed\<close> and
  \<open>modified\<close> of \<open>modification.diff\<close>.
\<close>

definition classify_degree :: "rat option \<Rightarrow> analysis \<Rightarrow> analysis" where
  "classify_degree changePercent a =
     (if js_lt changePercent (Some 2) then
        a\<lparr>categories := categories a @ [''typo_fix''], severity := ''minor''\<rparr>
      else if js_lt changePercent (Some 10) then
        a\<lparr>categories := categories a @ [''minor_adjustment''], severity := ''minor''\<rparr>
      else if js_lt changePercent (Some 30) then
        a\<lparr>categories := categories a @ [''moderate_change''], severity := ''moderate''\<rparr>
      else
        a\<lparr>categories := categories a @ [''major_rewrite''], severity := ''major''\<rparr>)"

definition classify_operation :: "diff_obj \<Rightarrow> analysis \<Rightarrow> analysis" where
  "classify_operation d a =
     (if js_gt (js_prop d ''added'') (js_mul (js_prop d ''removed'') (Some 2)) then
        a\<lparr>categories := categories a @ [''content_addition''],
          likely_reason := likely_reason a @ [''feature_enhancement'', ''missing_functionality'']\<rparr>
      else if js_gt (js_prop d ''removed'') (js_mul (js_prop d ''added'') (Some 2)) then
        a\<lparr>categories := categories a @ [''content_removal''],
          likely_reason := likely_reason a @ [''code_simplification'', ''remove_redundancy'']\<rparr>
      else if js_gt (js_prop d ''modified'')
                (js_add (js_prop d ''added'') (js_prop d ''removed'')) then
        a\<lparr>categories := categories a @ [''content_modification''],
          likely_reason := likely_reason a @ [''logic_correction'', ''style_adjustment'']\<rparr>
      else a)"

definition classify_regions :: "diff_obj \<Rightarrow> analysis \<Rightarrow> analysis" where
  "classify_regions d a =
     (if length (affected_regions d) = 1 then
        a\<lparr>categories := categories a @ [''focused_change'']\<rparr>
      else if length (affected_regions d) \<le> 3 then
        a\<lparr>categories := categories a @ [''multi_region_change'']\<rparr>
      else
        a\<lparr>categories := categories a @ [''scattered_changes'']\<rparr>)"

definition classify_reason :: "modification \<Rightarrow> rat option \<Rightarrow> analysis \<Rightarrow> analysis" where
  "classify_reason modification changePercent a =
     (let a1 = (if user_action modification = ''paste''
                then a\<lparr>likely_reason := likely_reason a @ [''external_code_integration'']\<rparr>
                else a)
      in if js_gt changePercent (Some 50) \<and> skill_name modification = ''ui-ux-pro-max''
         then a1\<lparr>likely_reason := likely_reason a1 @ [''style_preference_mismatch'']\<rparr>
         else a1)"

definition analyzeModificationType :: "modification \<Rightarrow> analysis" where
  "analyzeModificationType modification =
     (let analysis0 = \<lparr>modification_id = mod_id modification, categories = [],
                       severity = ''minor'', likely_reason = []\<rparr>;
          changePercent = js_prop (diff modification) ''change_percentage'';
          d = diff modification
      in classify_reason modification changePercent
           (classify_regions d (classify_operation d (classify_degree changePercent analysis0))))"

subsection \<open>Notions the statements about the classifier use\<close>


definition region_tags :: "string list" where
  "region_tags = [''focused_change'', ''multi_region_change'', ''scattered_changes'']"

text \<open>An edit context for a file that a generator produced, with the given contents.\<close>

definition edit_of :: "string \<Rightarrow> string \<Rightarrow> edit_context" where
  "edit_of beforeText afterText =
     \<lparr>ctx_filePath = ''out.html'', ctx_generatedBySkill = Some ''ui-ux-pro-max'',
      ctx_sessionId = None, ctx_editType = None, ctx_userAction = None,
      ctx_previousContent = Some beforeText, ctx_newContent = Some afterText\<rparr>"





definition region_tags_of :: "analysis \<Rightarrow> string list" where
  "region_tags_of a = filter (\<lambda>c. c \<in> set region_tags) (categories a)"

section \<open>Time decay of element weights (\<open>apply_time_decay\<close>)\<close>

text \<open>
  An element is a dictionary with a \<open>weight\<close> and a \<open>last_used\<close> time. Times are real
  numbers of days; \<open>(current_time - element['last_used']).days\<close> is the whole number of
  days of the difference, rounded down. Weights are real numbers, so that \<open>exp\<close> is the
  exponential function itself.
\<close>

record element =
  weight :: real
  last_used :: real

definition days_since_last_use :: "real \<Rightarrow> element \<Rightarrow> int" where
  "days_since_last_use current_time e = \<lfloor>current_time - last_used e\<rfloor>"

text \<open>The body of the \<open>for\<close> loop, for one element.\<close>

definition decay_element :: "real \<Rightarrow> element \<Rightarrow> element" where
  "decay_element current_time e =
     (let days = days_since_last_use current_time e
      in if days > 30 then
           (let decay_factor = exp (- of_int days / 100)
            in e\<lparr>weight := weight e * decay_factor\<rparr>)
         else e)"

definition apply_time_decay :: "real \<Rightarrow> element list \<Rightarrow> element list" where
  "apply_time_decay current_time elements = map (decay_element current_time) elements"


section \<open>The hooks and their effects\<close>

subsection \<open>Records the hooks exchange and store\<close>

text \<open>One entry of a file's modification history (detect-modifications.js).\<close>

record history_entry =
  h_timestamp :: string
  h_content :: string
  h_diff :: diff_obj

text \<open>
  The session-end context (collect-feedback.js): messages with their tool uses, the files
  the session modified and the optional explicit rating. A number that may be absent is
  \<open>None\<close>.
\<close>

record tool_input =
  ti_file_path :: "string option"
  ti_content :: "string option"
  ti_new_string :: "string option"
  ti_skill :: "string option"

record tool_use =
  tu_name :: string
  tu_input :: "tool_input option"

record message =
  role :: string
  toolUses :: "tool_use list option"

record file_info =
  fi_path :: string
  fi_generatedBySkill :: "string option"

record user_rating =
  score :: "rat option"
  comment :: "string option"
  aspects :: "(string \<times> rat) list option"

record session_context =
  filesModified :: "file_info list option"
  messageHistory :: "message list option"
  userRating :: "user_rating option"
  startTime :: "rat option"
  endTime :: "rat option"


text \<open>
  The statistics \<open>analyzeModifications\<close> keeps per generator. The objects keyed by name
  (\<open>categories\<close>, \<open>skill_feedback\<close>, \<open>modification_patterns\<close>) are maps: their key order
  plays no role below.
\<close>

record skill_stats =
  total_files :: nat
  total_changes :: int
  avg_change_percentage :: rat
  sk_categories :: "string \<Rightarrow> nat option"

record feedback_analysis =
  fa_session_id :: string
  fa_timestamp :: string
  overall_satisfaction :: int
  modification_patterns :: "string \<Rightarrow> nat option"
  skill_feedback :: "string \<Rightarrow> skill_stats option"

record rating_data =
  rd_session_id :: string
  rd_timestamp :: string
  rating :: "rat option"
  rd_comment :: string
  rd_aspects :: "(string \<times> rat) list"

text \<open>
  The context of a tool call (record-execution.js) and the execution record. The fields
  \<open>trigger\<close>, \<open>execution\<close>, \<open>output\<close> and \<open>user_feedback\<close> of the record come from
  regular-expression scans of the conversation and of the output; they are kept as one
  value, \<open>ed_details\<close>, that the environment computes (see \<open>scan_context\<close> below).
\<close>

record exec_parameters =
  p_skill :: "string option"
  p_args :: "string option"

record exec_context =
  tool :: string
  parameters :: "exec_parameters option"
  ec_payload :: string

record exec_details =
  duration_ms :: "rat option"
  details_json :: string

record execution_data =
  ed_session_id :: string
  ed_timestamp :: string
  ed_date :: string
  ed_skill_name :: string
  ed_skill_args :: string
  ed_details :: exec_details

record index_entry =
  ie_session_id :: string
  ie_timestamp :: string
  ie_skill_name :: string
  ie_duration_ms :: "rat option"
  ie_date :: string

subsection \<open>Files, environment and world\<close>

text \<open>
  A file holds either text or what a hook serialised into it with \<open>JSON.stringify\<close>; the
  JSON files are kept as the values written, so that reading one back with \<open>JSON.parse\<close>
  returns the value.
\<close>

datatype file_data =
    TextFile string
  | ModificationJson modification analysis
  | HistoryJson "history_entry list"
  | FeedbackJson feedback_analysis
  | RatingJson rating_data
  | ExecutionJson execution_data
  | IndexJson "index_entry list"

datatype js_error = TypeError | SyntaxError | FsError string

datatype log_entry = ConsoleError string js_error | ConsoleLog string

text \<open>
  What a hook cannot control: the clock, the random bytes, the MD5 digest, whether a file
  system call fails, the scan of a tool-call context and the text of a JSON file.
\<close>

record env =
  now_iso :: string
  now_ms :: string
  random_hex :: string
  md5_hex :: "string \<Rightarrow> string"
  mkdir_fails :: "string \<Rightarrow> bool"
  write_fails :: "string \<Rightarrow> bool"
  read_fails :: "string \<Rightarrow> bool"
  scan_context :: "exec_context \<Rightarrow> js_error + exec_details"
  json_text :: "file_data \<Rightarrow> string"

text \<open>
  The world a hook acts on: the files, the directories, the console and the module-level
  \<open>modificationCache\<close>, a \<open>Map\<close> in insertion order.
\<close>

record world =
  files :: "string \<Rightarrow> file_data option"
  dirs :: "string set"
  console :: "log_entry list"
  modificationCache :: "(string \<times> history_entry list) list"

text \<open>
  An action returns a value or throws, and leaves a world behind in both cases. A hook
  returns \<open>Inr\<close> of its result; \<open>Inl\<close> is a rejected promise, the error reaching the
  caller.
\<close>

type_synonym 'a io = "world \<Rightarrow> (js_error + 'a) \<times> world"

definition io_return :: "'a \<Rightarrow> 'a io" where
  "io_return x w = (Inr x, w)"

definition io_throw :: "js_error \<Rightarrow> 'a io" where
  "io_throw e w = (Inl e, w)"

definition io_bind :: "'a io \<Rightarrow> ('a \<Rightarrow> 'b io) \<Rightarrow> 'b io" where
  "io_bind m f w = (case m w of (Inl e, w') \<Rightarrow> (Inl e, w') | (Inr x, w') \<Rightarrow> f x w')"

definition try_catch :: "'a io \<Rightarrow> (js_error \<Rightarrow> 'a io) \<Rightarrow> 'a io" where
  "try_catch body handler w =
     (case body w of (Inr x, w') \<Rightarrow> (Inr x, w') | (Inl e, w') \<Rightarrow> handler e w')"

definition console_error :: "string \<Rightarrow> js_error \<Rightarrow> unit io" where
  "console_error msg e w = (Inr (), w\<lparr>console := console w @ [ConsoleError msg e]\<rparr>)"

definition console_log :: "string \<Rightarrow> unit io" where
  "console_log msg w = (Inr (), w\<lparr>console := console w @ [ConsoleLog msg]\<rparr>)"

definition fs_mkdir :: "env \<Rightarrow> string \<Rightarrow> unit io" where
  "fs_mkdir en p w =
     (if mkdir_fails en p then (Inl (FsError p), w)
      else (Inr (), w\<lparr>dirs := insert p (dirs w)\<rparr>))"

definition fs_writeFile :: "env \<Rightarrow> string \<Rightarrow> file_data \<Rightarrow> unit io" where
  "fs_writeFile en p d w =
     (if write_fails en p then (Inl (FsError p), w)
      else (Inr (), w\<lparr>files := (files w)(p \<mapsto> d)\<rparr>))"

definition fs_readFile :: "env \<Rightarrow> string \<Rightarrow> file_data io" where
  "fs_readFile en p w =
     (if read_fails en p then (Inl (FsError p), w)
      else (case files w p of None \<Rightarrow> (Inl (FsError p), w) | Some d \<Rightarrow> (Inr d, w)))"

definition path_join :: "string \<Rightarrow> string \<Rightarrow> string" where
  "path_join a b = a @ ''/'' @ b"

record hook_result =
  allow :: bool

subsection \<open>The file-edit hook \<open>detectModifications\<close> (detect-modifications.js)\<close>

text \<open>Directories are written relative to the directory of the hooks.\<close>

definition DATA_DIR :: string where
  "DATA_DIR = ''../data/modifications''"

definition CACHE_DIR :: string where
  "CACHE_DIR = ''../cache''"

definition MAX_CACHE_SIZE :: nat where
  "MAX_CACHE_SIZE = 100"

text \<open>\<open>Map.set\<close>: an existing key keeps its place, a new key goes last.\<close>

fun cache_set :: "(string \<times> 'v) list \<Rightarrow> string \<Rightarrow> 'v \<Rightarrow> (string \<times> 'v) list" where
  "cache_set [] k v = [(k, v)]"
| "cache_set ((k', v') # rest) k v =
     (if k' = k then (k, v) # rest else (k', v') # cache_set rest k v)"

definition ensureDirectories :: "env \<Rightarrow> unit io" where
  "ensureDirectories en =
     io_bind (fs_mkdir en DATA_DIR) (\<lambda>_. fs_mkdir en CACHE_DIR)"

definition generateModificationId :: "env \<Rightarrow> string" where
  "generateModificationId en = ''mod_'' @ now_ms en @ ''_'' @ random_hex en"

definition hashFilePath :: "env \<Rightarrow> string \<Rightarrow> string" where
  "hashFilePath en path = take 16 (md5_hex en path)"

definition historyFile_of :: "env \<Rightarrow> string \<Rightarrow> string" where
  "historyFile_of en path = path_join CACHE_DIR (hashFilePath en path @ ''_history.json'')"

text \<open>
  \<open>loadModificationHistory\<close> catches every error of the read and of \<open>JSON.parse\<close> and
  returns the empty history then. A history file holds a history that \<open>saveModification\<close>
  wrote; any other content counts as one that does not parse.
\<close>

definition loadModificationHistory :: "env \<Rightarrow> string \<Rightarrow> history_entry list io" where
  "loadModificationHistory en path =
     try_catch
       (io_bind (fs_readFile en (historyFile_of en path))
          (\<lambda>content. case content of
                        HistoryJson history \<Rightarrow> io_return history
                      | _ \<Rightarrow> io_throw SyntaxError))
       (\<lambda>error. io_return [])"

text \<open>
  \<open>recordModification\<close>. The history array lives in the cache, so \<open>history.push\<close> changes
  the cached entry in place; beyond 50 entries the last 50 are stored instead.
\<close>

definition cached_history :: "env \<Rightarrow> string \<Rightarrow> history_entry list io" where
  "cached_history en path w =
     (case map_of (modificationCache w) path of
        Some history \<Rightarrow> (Inr history, w)
      | None \<Rightarrow>
          (case loadModificationHistory en path w of
             (Inr history, w') \<Rightarrow>
               (Inr history,
                w'\<lparr>modificationCache := cache_set (modificationCache w') path history\<rparr>)
           | (Inl e, w') \<Rightarrow> (Inl e, w')))"

definition recordModification :: "env \<Rightarrow> edit_context \<Rightarrow> modification io" where
  "recordModification en context =
     io_bind (cached_history en (ctx_filePath context))
       (\<lambda>history w.
          let previousContent =
                (if length history > 0 then h_content (last history)
                 else or_default (ctx_previousContent context) []);
              currentContent = or_default (ctx_newContent context) [];
              modification =
                buildModification (generateModificationId en) (now_iso en) context
                  previousContent currentContent;
              history1 = history @ [\<lparr>h_timestamp = mod_timestamp modification,
                                      h_content = currentContent,
                                      h_diff = diff modification\<rparr>];
              w1 = w\<lparr>modificationCache :=
                      cache_set (modificationCache w) (ctx_filePath context) history1\<rparr>;
              w2 = (if length history1 > 50
                    then w1\<lparr>modificationCache :=
                            cache_set (modificationCache w1) (ctx_filePath context)
                              (drop (length history1 - 50) history1)\<rparr>
                    else w1)
          in (Inr modification, w2))"

definition saveModification :: "env \<Rightarrow> modification \<Rightarrow> analysis \<Rightarrow> unit io" where
  "saveModification en modification analysis =
     (let date = take 10 (mod_timestamp modification);
          filename = date @ ''_'' @ mod_id modification @ ''.json'';
          filepath = path_join DATA_DIR filename
      in io_bind (fs_writeFile en filepath (ModificationJson modification analysis))
           (\<lambda>_ w.
              let history = (case map_of (modificationCache w) (mod_file_path modification) of
                               Some h \<Rightarrow> h | None \<Rightarrow> [])
              in fs_writeFile en (historyFile_of en (mod_file_path modification))
                   (HistoryJson history) w))"

definition cleanupCache :: "unit io" where
  "cleanupCache w =
     (if length (modificationCache w) > MAX_CACHE_SIZE
      then (Inr (), w\<lparr>modificationCache :=
                        drop (length (modificationCache w) - MAX_CACHE_SIZE)
                          (modificationCache w)\<rparr>)
      else (Inr (), w))"

text \<open>The body of the \<open>try\<close> block, and the hook with its \<open>catch\<close>.\<close>

definition detectModifications_body :: "env \<Rightarrow> edit_context \<Rightarrow> hook_result io" where
  "detectModifications_body en context =
     io_bind (ensureDirectories en)
       (\<lambda>_. if \<not> truthy (ctx_generatedBySkill context) then io_return \<lparr>allow = True\<rparr>
            else
              io_bind (recordModification en context)
                (\<lambda>modification.
                   let analysis = analyzeModificationType modification
                   in io_bind (saveModification en modification analysis)
                        (\<lambda>_. io_bind cleanupCache (\<lambda>_. io_return \<lparr>allow = True\<rparr>))))"

definition detectModifications :: "env \<Rightarrow> edit_context \<Rightarrow> hook_result io" where
  "detectModifications en context =
     try_catch (detectModifications_body en context)
       (\<lambda>error. io_bind (console_error ''[Self-Evolution] Error detecting modifications:'' error)
                  (\<lambda>_. io_return \<lparr>allow = True\<rparr>))"

subsection \<open>Environments and worlds the statements use\<close>

text \<open>An environment in which no file system call fails, and the empty world.\<close>

definition quiet_env :: env where
  "quiet_env =
     \<lparr>now_iso = ''2026-01-10T10:30:00.000Z'', now_ms = ''1768041000000'',
      random_hex = ''0a1b2c3d'', md5_hex = (\<lambda>p. p),
      mkdir_fails = (\<lambda>_. False), write_fails = (\<lambda>_. False), read_fails = (\<lambda>_. False),
      scan_context = (\<lambda>_. Inr \<lparr>duration_ms = Some 0, details_json = []\<rparr>),
      json_text = (\<lambda>_. [])\<rparr>"

definition empty_world :: world where
  "empty_world = \<lparr>files = Map.empty, dirs = {}, console = [], modificationCache = []\<rparr>"

text \<open>An edit context like \<open>edit_of\<close>, of a file no generator produced.\<close>

definition foreign_edit :: "string \<Rightarrow> string \<Rightarrow> edit_context" where
  "foreign_edit beforeText afterText = (edit_of beforeText afterText)\<lparr>ctx_generatedBySkill := None\<rparr>"

subsection \<open>The session-end hook \<open>collectFeedback\<close> (collect-feedback.js)\<close>












text \<open>
  \<open>findClaudeGeneratedVersion\<close>: the messages from the last to the first, the tool uses of
  each in order; \<open>None\<close> is \<open>null\<close>.
\<close>

fun find_in_toolUses :: "string \<Rightarrow> tool_use list \<Rightarrow> string option" where
  "find_in_toolUses path [] = None"
| "find_in_toolUses path (toolUse # rest) =
     (if (tu_name toolUse = ''Write'' \<or> tu_name toolUse = ''Edit'') \<and>
         (case tu_input toolUse of None \<Rightarrow> False | Some inp \<Rightarrow> ti_file_path inp = Some path)
      then (case tu_input toolUse of
              None \<Rightarrow> None
            | Some inp \<Rightarrow> Some (or_default (ti_content inp) (or_default (ti_new_string inp) [])))
      else find_in_toolUses path rest)"

fun find_in_messages :: "string \<Rightarrow> message list \<Rightarrow> string option" where
  "find_in_messages path [] = None"
| "find_in_messages path (message # earlier) =
     (if role message = ''assistant'' \<and> toolUses message \<noteq> None then
        (case find_in_toolUses path (the (toolUses message)) of
           Some v \<Rightarrow> Some v
         | None \<Rightarrow> find_in_messages path earlier)
      else find_in_messages path earlier)"

definition findClaudeGeneratedVersion :: "string \<Rightarrow> session_context \<Rightarrow> string option" where
  "findClaudeGeneratedVersion path context =
     (case messageHistory context of
        None \<Rightarrow> None
      | Some messages \<Rightarrow> find_in_messages path (rev messages))"

text \<open>Reading a file as text: a JSON file gives the text of its value.\<close>

definition read_text :: "env \<Rightarrow> string \<Rightarrow> string io" where
  "read_text en path =
     io_bind (fs_readFile en path)
       (\<lambda>d. io_return (case d of TextFile s \<Rightarrow> s | _ \<Rightarrow> json_text en d))"

text \<open>
  \<open>analyzeFileModification\<close> has a handler of its own: an error of the read is logged and
  the file is skipped (\<open>None\<close> is \<open>null\<close>).
\<close>

definition analyzeFileModification ::
    "env \<Rightarrow> file_info \<Rightarrow> session_context \<Rightarrow> file_modification option io" where
  "analyzeFileModification en file context =
     try_catch
       (let claudeVersion = findClaudeGeneratedVersion (fi_path file) context
        in if \<not> truthy claudeVersion then io_return None
           else io_bind (read_text en (fi_path file))
                  (\<lambda>userVersion.
                     io_return (Some (fileModificationRecord (fi_path file) (the claudeVersion)
                                        userVersion (fi_generatedBySkill file)))))
       (\<lambda>error. io_bind (console_error (''[Self-Evolution] Error analyzing file '' @ fi_path file @ '':'') error)
                  (\<lambda>_. io_return None))"











subsection \<open>The tool-call hook \<open>recordExecution\<close> (record-execution.js)\<close>












subsection \<open>Notions the statements about the hooks use\<close>

text \<open>An action that leaves every file as it was, whether it returns or throws.\<close>

definition keeps_files :: "'a io \<Rightarrow> bool" where
  "keeps_files m \<longleftrightarrow> (\<forall>w. files (snd (m w)) = files w)"






section \<open>Properties of the diff engine\<close>

lemma run_start_unique:
  assumes "\<forall>i\<in>{s..e}. differs b a i" "s = 0 \<or> \<not> differs b a (s - 1)" "s \<le> e"
      and "\<forall>i\<in>{s'..e}. differs b a i" "s' = 0 \<or> \<not> differs b a (s' - 1)" "s' \<le> e"
  shows "s = s'"
proof (rule ccontr)
  assume ne: "s \<noteq> s'"
  show False
  proof (cases "s < s'")
    case True
    then have "s' - 1 \<in> {s..e}" "s' \<noteq> 0" using assms by auto
    then show False using assms by blast
  next
    case False
    then have "s - 1 \<in> {s'..e}" "s \<noteq> 0" using assms ne by auto
    then show False using assms by blast
  qed
qed

lemma card_step:
  "card {i. i < Suc k \<and> P i} = (if P k then Suc (card {i. i < k \<and> P i}) else card {i. i < k \<and> P i})"
proof -
  have fin: "finite {i. i < k \<and> P i}" by simp
  show ?thesis
  proof (cases "P k")
    case True
    then have "{i. i < Suc k \<and> P i} = insert k {i. i < k \<and> P i}" by (auto simp: less_Suc_eq)
    then show ?thesis using True fin by simp
  next
    case False
    then have "{i. i < Suc k \<and> P i} = {i. i < k \<and> P i}" by (auto simp: less_Suc_eq)
    then show ?thesis using False by simp
  qed
qed

lemma loop_inv_init: "loop_inv b a 0 (0, [], None)"
  by (simp add: loop_inv_def)

lemma loop_inv_step:
  assumes inv: "loop_inv b a k st" and k: "k < min (length b) (length a)"
  shows "loop_inv b a (Suc k) (diff_step b a k st)"
proof -
  obtain m regs cur where st: "st = (m, regs, cur)" by (cases st) auto
  from inv st have m: "m = int (card {i. i < k \<and> differs b a i})"
    and regs: "\<forall>r\<in>set regs. r_type r = ''modified'' \<and> maximal_run b a (r_start r) (r_end r) \<and> r_end r + 1 < k"
    and compl: "\<forall>s e. maximal_run b a s e \<and> e + 1 < k \<longrightarrow>
               \<lparr>r_start = s, r_end = e, r_type = ''modified''\<rparr> \<in> set regs"
    and srt: "sorted_wrt (\<lambda>x y. r_end x < r_start y) regs"
    and cur: "(case cur of
           None \<Rightarrow> k = 0 \<or> \<not> differs b a (k - 1)
         | Some r \<Rightarrow> 0 < k \<and> r_end r = k - 1 \<and> r_start r \<le> r_end r \<and>
                     (\<forall>i\<in>{r_start r..r_end r}. differs b a i) \<and>
                     (r_start r = 0 \<or> \<not> differs b a (r_start r - 1)) \<and>
                     r_type r = ''modified'')"
    by (simp_all add: loop_inv_def)
  have dk: "differs b a k \<longleftrightarrow> b ! k \<noteq> a ! k" using k by (simp add: differs_def)
  show ?thesis
  proof (cases "differs b a k")
    case True
    have c1: "int (card {i. i < Suc k \<and> differs b a i}) = m + 1"
      using True m by (simp add: card_step)
    have c2: "\<forall>s e. maximal_run b a s e \<and> e + 1 < Suc k \<longrightarrow>
               \<lparr>r_start = s, r_end = e, r_type = ''modified''\<rparr> \<in> set regs"
    proof (intro allI impI)
      fix s e assume h: "maximal_run b a s e \<and> e + 1 < Suc k"
      then have "e + 1 \<noteq> k" using True by (auto simp: maximal_run_def)
      with h have "e + 1 < k" by simp
      with h compl show "\<lparr>r_start = s, r_end = e, r_type = ''modified''\<rparr> \<in> set regs" by blast
    qed
    have c3: "\<forall>r\<in>set regs. r_type r = ''modified'' \<and> maximal_run b a (r_start r) (r_end r) \<and> r_end r + 1 < Suc k"
      using regs by auto
    show ?thesis
    proof (cases cur)
      case None
      with cur have "k = 0 \<or> \<not> differs b a (k - 1)" by simp
      then show ?thesis using True dk st None c1 c2 c3 srt
        by (simp add: loop_inv_def diff_step_def)
    next
      case (Some r)
      with cur have r: "0 < k" "r_end r = k - 1" "r_start r \<le> r_end r"
        "\<forall>i\<in>{r_start r..r_end r}. differs b a i"
        "r_start r = 0 \<or> \<not> differs b a (r_start r - 1)" "r_type r = ''modified''" by simp_all
      have "\<forall>i\<in>{r_start r..k}. differs b a i"
      proof
        fix i assume "i \<in> {r_start r..k}"
        then have "i = k \<or> i \<in> {r_start r..r_end r}" using r(1,2) by auto
        then show "differs b a i" using True r(4) by blast
      qed
      moreover have "r_start r \<le> k" using r by simp
      ultimately show ?thesis using True dk st Some c1 c2 c3 srt r(5,6)
        by (simp add: loop_inv_def diff_step_def)
    qed
  next
    case False
    have c1: "int (card {i. i < Suc k \<and> differs b a i}) = m"
      using False m by (simp add: card_step)
    show ?thesis
    proof (cases cur)
      case None
      with cur have nk: "k = 0 \<or> \<not> differs b a (k - 1)" by simp
      have c2: "\<forall>s e. maximal_run b a s e \<and> e + 1 < Suc k \<longrightarrow>
               \<lparr>r_start = s, r_end = e, r_type = ''modified''\<rparr> \<in> set regs"
      proof (intro allI impI)
        fix s e assume h: "maximal_run b a s e \<and> e + 1 < Suc k"
        have "e + 1 \<noteq> k"
        proof
          assume "e + 1 = k"
          then have "k \<noteq> 0" "e = k - 1" by auto
          moreover have "differs b a e" using h by (auto simp: maximal_run_def)
          ultimately show False using nk by simp
        qed
        with h have "e + 1 < k" by simp
        with h compl show "\<lparr>r_start = s, r_end = e, r_type = ''modified''\<rparr> \<in> set regs" by blast
      qed
      have c3: "\<forall>r\<in>set regs. r_type r = ''modified'' \<and> maximal_run b a (r_start r) (r_end r) \<and> r_end r + 1 < Suc k"
        using regs by auto
      show ?thesis using False dk st None c1 c2 c3 srt
        by (simp add: loop_inv_def diff_step_def)
    next
      case (Some r)
      with cur have r: "0 < k" "r_end r = k - 1" "r_start r \<le> r_end r"
        "\<forall>i\<in>{r_start r..r_end r}. differs b a i"
        "r_start r = 0 \<or> \<not> differs b a (r_start r - 1)" "r_type r = ''modified''" by simp_all
      have e1: "r_end r + 1 = k" using r by simp
      have rmax: "maximal_run b a (r_start r) (r_end r)"
        using r False e1 by (simp add: maximal_run_def)
      have req: "r = \<lparr>r_start = r_start r, r_end = r_end r, r_type = ''modified''\<rparr>"
        using r(6) by simp
      have c3: "\<forall>x\<in>set (regs @ [r]). r_type x = ''modified'' \<and> maximal_run b a (r_start x) (r_end x) \<and> r_end x + 1 < Suc k"
        using regs rmax r(6) e1 by auto
      have c2: "\<forall>s e. maximal_run b a s e \<and> e + 1 < Suc k \<longrightarrow>
               \<lparr>r_start = s, r_end = e, r_type = ''modified''\<rparr> \<in> set (regs @ [r])"
      proof (intro allI impI)
        fix s e assume h: "maximal_run b a s e \<and> e + 1 < Suc k"
        show "\<lparr>r_start = s, r_end = e, r_type = ''modified''\<rparr> \<in> set (regs @ [r])"
        proof (cases "e + 1 < k")
          case True
          with h compl show ?thesis by auto
        next
          case F: False
          with h have ee: "e = r_end r" using e1 by simp
          have "s = r_start r"
            using run_start_unique[of s e b a "r_start r"] h r(3,4,5) ee
            by (simp add: maximal_run_def)
          with ee req show ?thesis by simp
        qed
      qed
      have c4: "\<forall>x\<in>set regs. r_end x < r_start r"
      proof
        fix x assume x: "x \<in> set regs"
        with regs have nd: "\<not> differs b a (r_end x + 1)" and lt: "r_end x + 1 < k"
          by (auto simp: maximal_run_def)
        have "r_end x + 1 \<notin> {r_start r..r_end r}" using nd r(4) by blast
        then show "r_end x < r_start r" using lt r(2) by auto
      qed
      have c5: "sorted_wrt (\<lambda>x y. r_end x < r_start y) (regs @ [r])"
        using srt c4 by (simp add: sorted_wrt_append)
      show ?thesis using False dk st Some c1 c2 c3 c5
        by (simp add: loop_inv_def diff_step_def)
    qed
  qed
qed

lemma loop_inv_fold:
  "k \<le> min (length b) (length a) \<Longrightarrow> loop_inv b a k (fold (diff_step b a) [0..<k] (0, [], None))"
proof (induction k)
  case 0
  show ?case by (simp add: loop_inv_init)
next
  case (Suc k)
  then show ?case by (simp add: loop_inv_step)
qed

lemma diff_loop_inv:
  "loop_inv b a (min (length b) (length a)) (diff_loop b a (min (length b) (length a)))"
  unfolding diff_loop_def by (rule loop_inv_fold) simp

lemma round1_zero: "round1 0 = 0"
  by code_simp

lemma Math_round_near: "\<bar>of_int (Math_round x) - x\<bar> \<le> 1 / 2"
  unfolding Math_round_def by linarith

lemma round1_near: "\<bar>round1 x - x\<bar> \<le> 1 / 20"
proof -
  have "\<bar>of_int (Math_round (x * 10)) - x * 10\<bar> \<le> 1 / 2" by (rule Math_round_near)
  then show ?thesis unfolding round1_def by (simp add: field_simps abs_le_iff)
qed


lemma differs_set:
  "{i. i < min (length b) (length a) \<and> differs b a i} = {i. i < min (length b) (length a) \<and> b ! i \<noteq> a ! i}"
  by (auto simp: differs_def)

lemma dd_modified_card:
  "dd_modified (detailedDiffLines b a) = int (card {i. i < min (length b) (length a) \<and> b ! i \<noteq> a ! i})"
proof -
  obtain m regs cur where st: "diff_loop b a (min (length b) (length a)) = (m, regs, cur)"
    by (cases "diff_loop b a (min (length b) (length a))") auto
  from diff_loop_inv[of b a] st have "m = int (card {i. i < min (length b) (length a) \<and> differs b a i})"
    by (simp add: loop_inv_def)
  then have "m = int (card {i. i < min (length b) (length a) \<and> b ! i \<noteq> a ! i})"
    by (simp only: differs_set)
  moreover have "dd_modified (detailedDiffLines b a) = m"
    using st by (simp add: detailedDiffLines_def Let_def)
  ultimately show ?thesis by simp
qed

lemma dd_changePercentage_eq:
  "dd_changePercentage (detailedDiffLines b a) =
     (if b = [] \<and> a = [] then 0
      else round1 (100 * of_int (dd_modified (detailedDiffLines b a) + \<bar>int (length a) - int (length b)\<bar>)
                   / of_nat (max (length b) (length a))))"
proof -
  obtain m regs cur where st: "diff_loop b a (min (length b) (length a)) = (m, regs, cur)"
    by (cases "diff_loop b a (min (length b) (length a))") auto
  have dm: "dd_modified (detailedDiffLines b a) = m"
    using st by (simp add: detailedDiffLines_def Let_def)
  have cp: "dd_changePercentage (detailedDiffLines b a) =
      round1 (if max (length b) (length a) > 0
              then (of_int (m + \<bar>int (length a) - int (length b)\<bar>) / of_nat (max (length b) (length a))) * 100
              else 0)"
    using st by (simp add: detailedDiffLines_def Let_def)
  have z: "max (length b) (length a) > 0 \<longleftrightarrow> \<not> (b = [] \<and> a = [])"
    by (cases b; cases a) simp_all
  show ?thesis unfolding cp dm z by (simp add: round1_zero mult.commute)
qed




lemma dd_regions_eq:
  "dd_regions (detailedDiffLines b a) = loop_regions b a @ trailing_region b a"
proof -
  obtain m regs cur where st: "diff_loop b a (min (length b) (length a)) = (m, regs, cur)"
    by (cases "diff_loop b a (min (length b) (length a))") auto
  show ?thesis using st
    by (auto simp: detailedDiffLines_def Let_def loop_regions_def trailing_region_def
             split: option.splits)
qed

lemma maximal_run_bound: "maximal_run b a s e \<Longrightarrow> e < min (length b) (length a)"
  by (auto simp: maximal_run_def differs_def)

lemma loop_regions_props:
  shows "\<forall>r\<in>set (loop_regions b a). r_type r = ''modified'' \<and> maximal_run b a (r_start r) (r_end r)"
    and "\<forall>s e. maximal_run b a s e \<longrightarrow>
               \<lparr>r_start = s, r_end = e, r_type = ''modified''\<rparr> \<in> set (loop_regions b a)"
    and "sorted_wrt (\<lambda>x y. r_end x < r_start y) (loop_regions b a)"
proof -
  let ?n = "min (length b) (length a)"
  obtain m regs cur where st: "diff_loop b a ?n = (m, regs, cur)"
    by (cases "diff_loop b a ?n") auto
  from diff_loop_inv[of b a] st
  have regs: "\<forall>r\<in>set regs. r_type r = ''modified'' \<and> maximal_run b a (r_start r) (r_end r) \<and> r_end r + 1 < ?n"
    and compl: "\<forall>s e. maximal_run b a s e \<and> e + 1 < ?n \<longrightarrow>
               \<lparr>r_start = s, r_end = e, r_type = ''modified''\<rparr> \<in> set regs"
    and srt: "sorted_wrt (\<lambda>x y. r_end x < r_start y) regs"
    and cur: "(case cur of
           None \<Rightarrow> ?n = 0 \<or> \<not> differs b a (?n - 1)
         | Some r \<Rightarrow> 0 < ?n \<and> r_end r = ?n - 1 \<and> r_start r \<le> r_end r \<and>
                     (\<forall>i\<in>{r_start r..r_end r}. differs b a i) \<and>
                     (r_start r = 0 \<or> \<not> differs b a (r_start r - 1)) \<and>
                     r_type r = ''modified'')"
    by (simp_all add: loop_inv_def)
  have nd: "\<not> differs b a ?n" by (simp add: differs_def)
  show "\<forall>r\<in>set (loop_regions b a). r_type r = ''modified'' \<and> maximal_run b a (r_start r) (r_end r)"
  proof (cases cur)
    case None
    then show ?thesis using st regs by (simp add: loop_regions_def)
  next
    case (Some r)
    with cur have r: "0 < ?n" "r_end r = ?n - 1" "r_start r \<le> r_end r"
        "\<forall>i\<in>{r_start r..r_end r}. differs b a i"
        "r_start r = 0 \<or> \<not> differs b a (r_start r - 1)" "r_type r = ''modified''" by simp_all
    have "r_end r + 1 = ?n" using r(1,2) by simp
    then have "maximal_run b a (r_start r) (r_end r)"
      using r nd by (simp add: maximal_run_def)
    then show ?thesis using st Some regs r(6) by (simp add: loop_regions_def)
  qed
  show "\<forall>s e. maximal_run b a s e \<longrightarrow>
               \<lparr>r_start = s, r_end = e, r_type = ''modified''\<rparr> \<in> set (loop_regions b a)"
  proof (intro allI impI)
    fix s e assume h: "maximal_run b a s e"
    then have eb: "e < ?n" by (rule maximal_run_bound)
    show "\<lparr>r_start = s, r_end = e, r_type = ''modified''\<rparr> \<in> set (loop_regions b a)"
    proof (cases "e + 1 < ?n")
      case True
      with h compl have "\<lparr>r_start = s, r_end = e, r_type = ''modified''\<rparr> \<in> set regs" by blast
      then show ?thesis using st by (simp add: loop_regions_def split: option.splits)
    next
      case False
      with eb have e: "e = ?n - 1" "0 < ?n" by auto
      have de: "differs b a e" using h by (auto simp: maximal_run_def)
      show ?thesis
      proof (cases cur)
        case None
        with cur e de show ?thesis by auto
      next
        case (Some r)
        with cur have r: "0 < ?n" "r_end r = ?n - 1" "r_start r \<le> r_end r"
          "\<forall>i\<in>{r_start r..r_end r}. differs b a i"
          "r_start r = 0 \<or> \<not> differs b a (r_start r - 1)" "r_type r = ''modified''" by simp_all
        have ee: "e = r_end r" using e r(2) by simp
        have "s = r_start r"
          using run_start_unique[of s e b a "r_start r"] h r(3,4,5) ee
          by (simp add: maximal_run_def)
        moreover have "r = \<lparr>r_start = r_start r, r_end = r_end r, r_type = ''modified''\<rparr>"
          using r(6) by simp
        ultimately show ?thesis using st Some ee by (simp add: loop_regions_def)
      qed
    qed
  qed
  show "sorted_wrt (\<lambda>x y. r_end x < r_start y) (loop_regions b a)"
  proof (cases cur)
    case None
    then show ?thesis using st srt by (simp add: loop_regions_def)
  next
    case (Some r)
    with cur have r: "0 < ?n" "r_end r = ?n - 1" "r_start r \<le> r_end r"
        "\<forall>i\<in>{r_start r..r_end r}. differs b a i" by simp_all
    have "\<forall>x\<in>set regs. r_end x < r_start r"
    proof
      fix x assume x: "x \<in> set regs"
      with regs have ndx: "\<not> differs b a (r_end x + 1)" and lt: "r_end x + 1 < ?n"
        by (auto simp: maximal_run_def)
      have "r_end x + 1 \<notin> {r_start r..r_end r}" using ndx r(4) by blast
      then show "r_end x < r_start r" using lt r(2) by auto
    qed
    then show ?thesis using st Some srt by (simp add: loop_regions_def sorted_wrt_append)
  qed
qed

text \<open>
  Claim C6. The regions of \<open>calculateDetailedDiff\<close> are the regions tagged "modified"
  followed by the trailing region; the "modified" regions are exactly the maximal runs of
  differing indices below the shorter length; the trailing region (present when the lengths
  differ) has the size of the length delta; and the whole list is sorted by position, each
  region ending before the next begins.
\<close>

theorem affected_regions_structure:
  "dd_regions (detailedDiffLines b a) =
     modified_regions (dd_regions (detailedDiffLines b a)) @ trailing_region b a \<and>
   (\<forall>r\<in>set (modified_regions (dd_regions (detailedDiffLines b a))).
      maximal_run b a (r_start r) (r_end r)) \<and>
   (\<forall>s e. maximal_run b a s e \<longrightarrow>
      \<lparr>r_start = s, r_end = e, r_type = ''modified''\<rparr>
        \<in> set (modified_regions (dd_regions (detailedDiffLines b a)))) \<and>
   (\<forall>t\<in>set (trailing_region b a). region_size t = nat \<bar>int (length a) - int (length b)\<bar>) \<and>
   sorted_wrt (\<lambda>x y. r_end x < r_start y) (dd_regions (detailedDiffLines b a)) \<and>
   (\<forall>r\<in>set (dd_regions (detailedDiffLines b a)). r_start r \<le> r_end r)"
proof -
  note P = loop_regions_props[of b a]
  have f1: "filter (\<lambda>r. r_type r = ''modified'') (loop_regions b a) = loop_regions b a"
    using P(1) by (simp add: filter_id_conv)
  have f2: "filter (\<lambda>r. r_type r = ''modified'') (trailing_region b a) = []"
    by (simp add: trailing_region_def)
  have mods: "modified_regions (dd_regions (detailedDiffLines b a)) = loop_regions b a"
    by (simp add: modified_regions_def dd_regions_eq f1 f2)
  have size: "\<forall>t\<in>set (trailing_region b a). region_size t = nat \<bar>int (length a) - int (length b)\<bar>"
    by (auto simp: trailing_region_def region_size_def)
  have bound: "\<forall>x\<in>set (loop_regions b a). \<forall>t\<in>set (trailing_region b a). r_end x < r_start t"
  proof (intro ballI)
    fix x t assume "x \<in> set (loop_regions b a)" "t \<in> set (trailing_region b a)"
    then have "r_end x < min (length b) (length a)" "min (length b) (length a) \<le> r_start t"
      using P(1) maximal_run_bound by (auto simp: trailing_region_def split: if_splits)
    then show "r_end x < r_start t" by linarith
  qed
  have srt: "sorted_wrt (\<lambda>x y. r_end x < r_start y) (loop_regions b a @ trailing_region b a)"
    using P(3) bound by (simp add: sorted_wrt_append trailing_region_def)
  have ne: "\<forall>r\<in>set (loop_regions b a @ trailing_region b a). r_start r \<le> r_end r"
    using P(1) by (auto simp: maximal_run_def trailing_region_def split: if_splits)
  show ?thesis
    unfolding mods using dd_regions_eq[of b a] P(1,2) size srt ne by simp
qed

text \<open>
  Claim C6 at before = a, b, c and after = a, x, c, d: one modified region at index 1, then
  the added region at index 3.
\<close>

theorem affected_regions_structure_witness:
  "dd_regions (calculateDetailedDiff ''a\<newline>b\<newline>c'' ''a\<newline>x\<newline>c\<newline>d'') =
     [\<lparr>r_start = 1, r_end = 1, r_type = ''modified''\<rparr>,
      \<lparr>r_start = 3, r_end = 3, r_type = ''added''\<rparr>] \<and>
   maximal_run [''a'', ''b'', ''c''] [''a'', ''x'', ''c'', ''d''] 1 1 \<and>
   \<lparr>r_start = 1, r_end = 1, r_type = ''modified''\<rparr>
     \<in> set (modified_regions (dd_regions (detailedDiffLines [''a'', ''b'', ''c''] [''a'', ''x'', ''c'', ''d''])))"
proof -
  have r: "dd_regions (calculateDetailedDiff ''a\<newline>b\<newline>c'' ''a\<newline>x\<newline>c\<newline>d'') =
     [\<lparr>r_start = 1, r_end = 1, r_type = ''modified''\<rparr>,
      \<lparr>r_start = 3, r_end = 3, r_type = ''added''\<rparr>]" by code_simp
  have m: "maximal_run [''a'', ''b'', ''c''] [''a'', ''x'', ''c'', ''d''] 1 1"
    by (simp add: maximal_run_def differs_def)
  show ?thesis
    using affected_regions_structure[of "[''a'', ''b'', ''c'']" "[''a'', ''x'', ''c'', ''d'']"] r m
    by blast
qed

section \<open>Properties of the satisfaction scorer\<close>

lemma foldl_sum_percentages:
  "foldl (\<lambda>sum m. sum + percentage_changed (modifications m)) s mods =
     s + sum_list (map (\<lambda>m. percentage_changed (modifications m)) mods)"
  by (induction mods arbitrary: s) simp_all

lemma satisfaction_score_mean:
  "mods \<noteq> [] \<Longrightarrow>
     calculateSatisfactionScore mods = max 0 (min 100 (Math_round (100 - mean_change mods)))"
  by (simp add: calculateSatisfactionScore_def mean_change_def foldl_sum_percentages)

lemma Math_round_mono: "x \<le> y \<Longrightarrow> Math_round x \<le> Math_round y"
  unfolding Math_round_def by (intro floor_mono) simp


lemma sum_percentages_mono:
  "list_all2 (\<lambda>m m'. percentage_changed (modifications m) \<le> percentage_changed (modifications m')) ms ms' \<Longrightarrow>
     sum_list (map (\<lambda>m. percentage_changed (modifications m)) ms)
       \<le> sum_list (map (\<lambda>m. percentage_changed (modifications m)) ms')"
  by (induction rule: list_all2_induct) (simp_all add: add_mono)




text \<open>
  Claim C5. The score lies in [0,100] for every list of modification records, and raising
  change percentages (any of them, the others kept or raised as well) never raises the
  score.
\<close>

theorem satisfaction_monotone_bounded:
  "0 \<le> calculateSatisfactionScore ms \<and> calculateSatisfactionScore ms \<le> 100 \<and>
   (list_all2 (\<lambda>m m'. percentage_changed (modifications m) \<le> percentage_changed (modifications m'))
      ms ms' \<longrightarrow>
    calculateSatisfactionScore ms' \<le> calculateSatisfactionScore ms)"
proof -
  have b: "0 \<le> calculateSatisfactionScore ms \<and> calculateSatisfactionScore ms \<le> 100"
    by (simp add: calculateSatisfactionScore_def Let_def)
  have m: "calculateSatisfactionScore ms' \<le> calculateSatisfactionScore ms"
    if h: "list_all2 (\<lambda>m m'. percentage_changed (modifications m) \<le> percentage_changed (modifications m')) ms ms'"
  proof (cases "ms = []")
    case True
    with h have "ms' = []" by simp
    with True show ?thesis by simp
  next
    case False
    from h have len: "length ms = length ms'" by (rule list_all2_lengthD)
    with False have ne: "ms' \<noteq> []" by auto
    have pos: "(0::rat) < of_nat (length ms)" using False by simp
    have "mean_change ms \<le> mean_change ms'"
      unfolding mean_change_def len[symmetric]
      using sum_percentages_mono[OF h] pos by (simp add: divide_right_mono)
    then have "Math_round (100 - mean_change ms') \<le> Math_round (100 - mean_change ms)"
      by (intro Math_round_mono) simp
    then show ?thesis
      using False ne by (simp add: satisfaction_score_mean)
  qed
  show ?thesis using b m by blast
qed

text \<open>Claim C5 at two files: raising 5 and 45 percent to 30 and 45 lowers 75 to 63.\<close>

theorem satisfaction_monotone_bounded_witness:
  "calculateSatisfactionScore [with_percentage 30, with_percentage 45]
     \<le> calculateSatisfactionScore [with_percentage 5, with_percentage 45] \<and>
   calculateSatisfactionScore [with_percentage 5, with_percentage 45] = 75 \<and>
   calculateSatisfactionScore [with_percentage 30, with_percentage 45] = 63"
proof -
  have h: "list_all2 (\<lambda>m m'. percentage_changed (modifications m) \<le> percentage_changed (modifications m'))
             [with_percentage 5, with_percentage 45] [with_percentage 30, with_percentage 45]"
    by (simp add: with_percentage_def)
  have a: "calculateSatisfactionScore [with_percentage 5, with_percentage 45] = 75" by code_simp
  have b: "calculateSatisfactionScore [with_percentage 30, with_percentage 45] = 63" by code_simp
  show ?thesis
    using satisfaction_monotone_bounded[of "[with_percentage 5, with_percentage 45]"
            "[with_percentage 30, with_percentage 45]"] h a b
    by blast
qed

section \<open>Properties of the modification classifier\<close>

lemma severity_classify_reason [simp]:
  "severity (classify_reason m cp a) = severity a"
  by (simp add: classify_reason_def Let_def)

lemma categories_classify_reason [simp]:
  "categories (classify_reason m cp a) = categories a"
  by (simp add: classify_reason_def Let_def)

lemma severity_classify_regions [simp]:
  "severity (classify_regions d a) = severity a"
  by (simp add: classify_regions_def)

lemma severity_classify_operation [simp]:
  "severity (classify_operation d a) = severity a"
  by (simp add: classify_operation_def)

lemma categories_classify_regions:
  "categories (classify_regions d a) =
     categories a @ [if length (affected_regions d) = 1 then ''focused_change''
                     else if length (affected_regions d) \<le> 3 then ''multi_region_change''
                     else ''scattered_changes'']"
  by (simp add: classify_regions_def)

lemma categories_classify_operation:
  "categories (classify_operation d a) =
     categories a @
       (if js_gt (js_prop d ''added'') (js_mul (js_prop d ''removed'') (Some 2))
        then [''content_addition'']
        else if js_gt (js_prop d ''removed'') (js_mul (js_prop d ''added'') (Some 2))
        then [''content_removal'']
        else if js_gt (js_prop d ''modified'')
                  (js_add (js_prop d ''added'') (js_prop d ''removed''))
        then [''content_modification'']
        else [])"
  by (simp add: classify_operation_def)

lemma categories_classify_degree:
  "categories (classify_degree cp a) =
     categories a @
       [if js_lt cp (Some 2) then ''typo_fix''
        else if js_lt cp (Some 10) then ''minor_adjustment''
        else if js_lt cp (Some 30) then ''moderate_change''
        else ''major_rewrite'']"
  by (simp add: classify_degree_def)

lemma severity_classify_degree:
  "severity (classify_degree cp a) =
     (if js_lt cp (Some 10) then ''minor''
      else if js_lt cp (Some 30) then ''moderate'' else ''major'')"
  by (auto simp add: classify_degree_def js_lt_def split: option.splits)

lemma categories_analyze:
  "categories (analyzeModificationType m) =
     [if js_lt (js_prop (diff m) ''change_percentage'') (Some 2) then ''typo_fix''
      else if js_lt (js_prop (diff m) ''change_percentage'') (Some 10) then ''minor_adjustment''
      else if js_lt (js_prop (diff m) ''change_percentage'') (Some 30) then ''moderate_change''
      else ''major_rewrite''] @
     (if js_gt (js_prop (diff m) ''added'') (js_mul (js_prop (diff m) ''removed'') (Some 2))
      then [''content_addition'']
      else if js_gt (js_prop (diff m) ''removed'') (js_mul (js_prop (diff m) ''added'') (Some 2))
      then [''content_removal'']
      else if js_gt (js_prop (diff m) ''modified'')
                (js_add (js_prop (diff m) ''added'') (js_prop (diff m) ''removed''))
      then [''content_modification'']
      else []) @
     [if length (affected_regions (diff m)) = 1 then ''focused_change''
      else if length (affected_regions (diff m)) \<le> 3 then ''multi_region_change''
      else ''scattered_changes'']"
  by (simp add: analyzeModificationType_def Let_def categories_classify_regions
        categories_classify_operation categories_classify_degree)

lemma identical_no_regions: "dd_regions (detailedDiffLines b b) = []"
proof -
  have "loop_regions b b = []"
  proof (cases "loop_regions b b")
    case Nil
    then show ?thesis .
  next
    case (Cons r rs)
    then have "maximal_run b b (r_start r) (r_end r)"
      using loop_regions_props(1)[of b b] by simp
    then have "differs b b (r_start r)" by (auto simp: maximal_run_def)
    then show ?thesis by (simp add: differs_def)
  qed
  then show ?thesis by (simp add: dd_regions_eq trailing_region_def)
qed

lemma identical_change_percentage: "dd_changePercentage (detailedDiffLines b b) = 0"
proof -
  have "dd_modified (detailedDiffLines b b) = 0" by (simp add: dd_modified_card)
  then show ?thesis by (simp add: dd_changePercentage_eq round1_zero)
qed

text \<open>
  Claim C3, as the code has it. The severity takes three values: "minor" for a change
  percentage below 10, "moderate" on [10,30) and "major" from 30 on; it is never "trivial".
  The four bands with boundaries 2, 10 and 30 are those of the category pushed first:
  [0,2) "typo_fix", [2,10) "minor_adjustment", [10,30) "moderate_change", [30,100]
  "major_rewrite".
\<close>

theorem severity_bands:
  "js_prop (diff m) ''change_percentage'' = Some cp \<Longrightarrow>
     severity (analyzeModificationType m) =
       (if cp < 10 then ''minor'' else if cp < 30 then ''moderate'' else ''major'') \<and>
     hd (categories (analyzeModificationType m)) =
       (if cp < 2 then ''typo_fix'' else if cp < 10 then ''minor_adjustment''
        else if cp < 30 then ''moderate_change'' else ''major_rewrite'') \<and>
     severity (analyzeModificationType m) \<noteq> ''trivial''"
proof -
  assume cp: "js_prop (diff m) ''change_percentage'' = Some cp"
  have s: "severity (analyzeModificationType m) =
       (if cp < 10 then ''minor'' else if cp < 30 then ''moderate'' else ''major'')"
    using cp by (simp add: analyzeModificationType_def Let_def severity_classify_degree js_lt_def)
  have c: "hd (categories (analyzeModificationType m)) =
       (if cp < 2 then ''typo_fix'' else if cp < 10 then ''minor_adjustment''
        else if cp < 30 then ''moderate_change'' else ''major_rewrite'')"
    using cp by (simp add: categories_analyze js_lt_def)
  have t: "severity (analyzeModificationType m) \<noteq> ''trivial''"
    unfolding s by simp
  show ?thesis using s c t by blast
qed

text \<open>
  Claim C3 at ten identical lines before and after: change percentage 0, severity "minor",
  category "typo_fix".
\<close>

theorem severity_bands_witness:
  "js_prop (diff (buildModification ''mod_1_ab'' ''2026-01-10T10:30:00.000Z''
       (edit_of ''1\<newline>2\<newline>3\<newline>4\<newline>5\<newline>6\<newline>7\<newline>8\<newline>9\<newline>0'' ''1\<newline>2\<newline>3\<newline>4\<newline>5\<newline>6\<newline>7\<newline>8\<newline>9\<newline>0'')
       ''1\<newline>2\<newline>3\<newline>4\<newline>5\<newline>6\<newline>7\<newline>8\<newline>9\<newline>0'' ''1\<newline>2\<newline>3\<newline>4\<newline>5\<newline>6\<newline>7\<newline>8\<newline>9\<newline>0''))
     ''change_percentage'' = Some 0 \<and>
   severity (analyzeModificationType (buildModification ''mod_1_ab'' ''2026-01-10T10:30:00.000Z''
       (edit_of ''1\<newline>2\<newline>3\<newline>4\<newline>5\<newline>6\<newline>7\<newline>8\<newline>9\<newline>0'' ''1\<newline>2\<newline>3\<newline>4\<newline>5\<newline>6\<newline>7\<newline>8\<newline>9\<newline>0'')
       ''1\<newline>2\<newline>3\<newline>4\<newline>5\<newline>6\<newline>7\<newline>8\<newline>9\<newline>0'' ''1\<newline>2\<newline>3\<newline>4\<newline>5\<newline>6\<newline>7\<newline>8\<newline>9\<newline>0'')) = ''minor'' \<and>
   hd (categories (analyzeModificationType (buildModification ''mod_1_ab'' ''2026-01-10T10:30:00.000Z''
       (edit_of ''1\<newline>2\<newline>3\<newline>4\<newline>5\<newline>6\<newline>7\<newline>8\<newline>9\<newline>0'' ''1\<newline>2\<newline>3\<newline>4\<newline>5\<newline>6\<newline>7\<newline>8\<newline>9\<newline>0'')
       ''1\<newline>2\<newline>3\<newline>4\<newline>5\<newline>6\<newline>7\<newline>8\<newline>9\<newline>0'' ''1\<newline>2\<newline>3\<newline>4\<newline>5\<newline>6\<newline>7\<newline>8\<newline>9\<newline>0''))) = ''typo_fix''"
proof -
  let ?s = "''1\<newline>2\<newline>3\<newline>4\<newline>5\<newline>6\<newline>7\<newline>8\<newline>9\<newline>0''"
  let ?m = "buildModification ''mod_1_ab'' ''2026-01-10T10:30:00.000Z'' (edit_of ?s ?s) ?s ?s"
  have p: "js_prop (diff ?m) ''change_percentage'' = Some 0"
    by (simp add: buildModification_def Let_def js_prop_def calculateDetailedDiff_def
          identical_change_percentage)
  show ?thesis using severity_bands[OF p] p by simp
qed

text \<open>
  Claim C3 as stated fails at its own scenario: for ten identical lines before and after
  the change percentage is 0 and the severity is "minor", not "trivial".
\<close>

theorem severity_trivial_counterexample:
  "severity (analyzeModificationType (buildModification ''mod_1_ab'' ''2026-01-10T10:30:00.000Z''
       (edit_of ''1\<newline>2\<newline>3\<newline>4\<newline>5\<newline>6\<newline>7\<newline>8\<newline>9\<newline>0'' ''1\<newline>2\<newline>3\<newline>4\<newline>5\<newline>6\<newline>7\<newline>8\<newline>9\<newline>0'')
       ''1\<newline>2\<newline>3\<newline>4\<newline>5\<newline>6\<newline>7\<newline>8\<newline>9\<newline>0'' ''1\<newline>2\<newline>3\<newline>4\<newline>5\<newline>6\<newline>7\<newline>8\<newline>9\<newline>0'')) \<noteq> ''trivial''"
  by code_simp








lemma region_tags_analyze:
  "region_tags_of (analyzeModificationType m) =
     [if length (affected_regions (diff m)) = 1 then ''focused_change''
      else if length (affected_regions (diff m)) \<le> 3 then ''multi_region_change''
      else ''scattered_changes'']"
  by (simp add: region_tags_of_def categories_analyze region_tags_def)




text \<open>
  Claim C9. The region tag is "focused_change" for exactly one affected region,
  "multi_region_change" for every other count up to 3, zero included, and
  "scattered_changes" above 3. In particular a modification with no affected region is
  tagged "multi_region_change" and neither "focused_change" nor "scattered_changes"; the
  record the hook builds for identical before and after contents is such a modification.
\<close>

theorem zero_regions_multi_region:
  "region_tags_of (analyzeModificationType m) =
     [if length (affected_regions (diff m)) = 1 then ''focused_change''
      else if length (affected_regions (diff m)) \<le> 3 then ''multi_region_change''
      else ''scattered_changes''] \<and>
   (affected_regions (diff m) = [] \<longrightarrow>
      ''multi_region_change'' \<in> set (categories (analyzeModificationType m)) \<and>
      ''focused_change'' \<notin> set (categories (analyzeModificationType m)) \<and>
      ''scattered_changes'' \<notin> set (categories (analyzeModificationType m))) \<and>
   affected_regions (diff (buildModification ident ts context content content)) = []"
proof -
  have z: "affected_regions (diff (buildModification ident ts context content content)) = []"
    by (simp add: buildModification_def Let_def calculateDetailedDiff_def identical_no_regions)
  have c: "affected_regions (diff m) = [] \<Longrightarrow>
      ''multi_region_change'' \<in> set (categories (analyzeModificationType m)) \<and>
      ''focused_change'' \<notin> set (categories (analyzeModificationType m)) \<and>
      ''scattered_changes'' \<notin> set (categories (analyzeModificationType m))"
    by (simp add: categories_analyze)
  show ?thesis using region_tags_analyze[of m] z c by blast
qed

text \<open>Claim C9 at an edit that leaves a three-line file as it was.\<close>

theorem zero_regions_multi_region_witness:
  "affected_regions (diff (buildModification ''mod_1_ab'' ''2026-01-10T10:30:00.000Z''
      (edit_of ''a\<newline>b\<newline>c'' ''a\<newline>b\<newline>c'') ''a\<newline>b\<newline>c'' ''a\<newline>b\<newline>c'')) = [] \<and>
   ''multi_region_change'' \<in> set (categories (analyzeModificationType
      (buildModification ''mod_1_ab'' ''2026-01-10T10:30:00.000Z''
        (edit_of ''a\<newline>b\<newline>c'' ''a\<newline>b\<newline>c'') ''a\<newline>b\<newline>c'' ''a\<newline>b\<newline>c''))) \<and>
   ''focused_change'' \<notin> set (categories (analyzeModificationType
      (buildModification ''mod_1_ab'' ''2026-01-10T10:30:00.000Z''
        (edit_of ''a\<newline>b\<newline>c'' ''a\<newline>b\<newline>c'') ''a\<newline>b\<newline>c'' ''a\<newline>b\<newline>c''))) \<and>
   ''scattered_changes'' \<notin> set (categories (analyzeModificationType
      (buildModification ''mod_1_ab'' ''2026-01-10T10:30:00.000Z''
        (edit_of ''a\<newline>b\<newline>c'' ''a\<newline>b\<newline>c'') ''a\<newline>b\<newline>c'' ''a\<newline>b\<newline>c'')))"
proof -
  let ?m = "buildModification ''mod_1_ab'' ''2026-01-10T10:30:00.000Z''
        (edit_of ''a\<newline>b\<newline>c'' ''a\<newline>b\<newline>c'') ''a\<newline>b\<newline>c'' ''a\<newline>b\<newline>c''"
  have z: "affected_regions (diff ?m) = []" by code_simp
  show ?thesis using zero_regions_multi_region[of ?m] z by blast
qed

section \<open>Properties of the time decay\<close>

lemma decay_element_last_used [simp]:
  "last_used (decay_element t e) = last_used e"
  by (simp add: decay_element_def Let_def)







section \<open>Properties of the hooks\<close>

lemma ensureDirectories_frame:
  "ensureDirectories en w = (r, w') \<Longrightarrow>
     files w' = files w \<and> modificationCache w' = modificationCache w \<and> console w' = console w"
  by (auto simp: ensureDirectories_def io_bind_def fs_mkdir_def split: if_splits)

text \<open>
  Claim C10. For an edit whose context has no \<open>generatedBySkill\<close> value (undefined, or the
  empty string) the hook returns \<open>{ allow: true }\<close>, and the world it leaves is the one
  \<open>ensureDirectories\<close> left, with one console entry more if that call failed: the
  modification cache is the same and no file is written, whatever the contents of the edit.
\<close>

theorem untracked_edit_not_recorded:
  "\<not> truthy (ctx_generatedBySkill context) \<Longrightarrow>
     fst (detectModifications en context w) = Inr \<lparr>allow = True\<rparr> \<and>
     modificationCache (snd (detectModifications en context w)) = modificationCache w \<and>
     files (snd (detectModifications en context w)) = files w \<and>
     (fst (ensureDirectories en w) = Inr () \<longrightarrow>
        snd (detectModifications en context w) = snd (ensureDirectories en w))"
proof -
  assume g: "\<not> truthy (ctx_generatedBySkill context)"
  obtain r w' where e: "ensureDirectories en w = (r, w')" by (cases "ensureDirectories en w") auto
  note fr = ensureDirectories_frame[OF e]
  show ?thesis
  proof (cases r)
    case (Inl err)
    then show ?thesis using g e fr
      by (simp add: detectModifications_def detectModifications_body_def try_catch_def
            io_bind_def io_return_def console_error_def)
  next
    case (Inr u)
    then show ?thesis using g e fr
      by (simp add: detectModifications_def detectModifications_body_def try_catch_def
            io_bind_def io_return_def)
  qed
qed

text \<open>
  Claim C10 at an edit of a file no generator produced, in the empty world: the hook only
  creates its two directories.
\<close>

theorem untracked_edit_not_recorded_witness:
  "fst (detectModifications quiet_env (foreign_edit ''a'' ''b'') empty_world) = Inr \<lparr>allow = True\<rparr> \<and>
   modificationCache (snd (detectModifications quiet_env (foreign_edit ''a'' ''b'') empty_world)) = [] \<and>
   files (snd (detectModifications quiet_env (foreign_edit ''a'' ''b'') empty_world)) = Map.empty"
proof -
  have g: "\<not> truthy (ctx_generatedBySkill (foreign_edit ''a'' ''b''))"
    by (simp add: foreign_edit_def truthy_def)
  show ?thesis
    using untracked_edit_not_recorded[OF g, of quiet_env empty_world]
    by (simp add: empty_world_def)
qed








lemma analyzeFileModification_total:
  "\<exists>r w'. analyzeFileModification en f c w = (Inr r, w') \<and> files w' = files w \<and> dirs w' = dirs w
      \<and> modificationCache w' = modificationCache w"
  by (auto simp: analyzeFileModification_def try_catch_def io_bind_def fs_readFile_def read_text_def
        io_return_def io_throw_def console_error_def Let_def split: option.splits)


lemma keeps_files_bind:
  "keeps_files m \<Longrightarrow> (\<And>x. keeps_files (f x)) \<Longrightarrow> keeps_files (io_bind m f)"
  unfolding keeps_files_def io_bind_def
  by (auto split: prod.splits sum.splits) (metis snd_conv)+

lemma keeps_files_try:
  "keeps_files m \<Longrightarrow> (\<And>e. keeps_files (h e)) \<Longrightarrow> keeps_files (try_catch m h)"
  unfolding keeps_files_def try_catch_def
  by (auto split: prod.splits sum.splits) (metis snd_conv)+

lemma keeps_files_return [simp]: "keeps_files (io_return x)"
  by (simp add: keeps_files_def io_return_def)

lemma keeps_files_throw [simp]: "keeps_files (io_throw e)"
  by (simp add: keeps_files_def io_throw_def)

lemma keeps_files_mkdir [simp]: "keeps_files (fs_mkdir en p)"
  by (simp add: keeps_files_def fs_mkdir_def)

lemma keeps_files_read [simp]: "keeps_files (fs_readFile en p)"
  by (simp add: keeps_files_def fs_readFile_def split: option.splits)

lemma keeps_files_console_error [simp]: "keeps_files (console_error msg e)"
  by (simp add: keeps_files_def console_error_def)

lemma keeps_files_console_log [simp]: "keeps_files (console_log msg)"
  by (simp add: keeps_files_def console_log_def)



lemma keeps_files_loadHistory: "keeps_files (loadModificationHistory en p)"
  unfolding loadModificationHistory_def
  by (intro keeps_files_try keeps_files_bind) (simp_all split: file_data.splits)


















end
